theory Spec2Isabelle
  imports Complex_Main
begin

section \<open>The Raspberry Pi math quiz: GPIO, console and the quiz loop\<close>

text \<open>
  The program \<^verbatim>\<open>raspberry_pi_math_quiz.py\<close> talks to three parts of its
  environment: the GPIO library, the clock (\<^verbatim>\<open>time.sleep\<close>) and the console
  (\<^verbatim>\<open>input\<close>, \<^verbatim>\<open>print\<close>). Each Python function is embedded as a function on
  an explicit world that holds what the environment is going to do (the text typed, the
  library calls that are going to raise, the sleeps that are going to be interrupted) and
  the trace of everything the program has done so far. An exception is the \<open>Inl\<close> value
  of the result.
\<close>

subsection \<open>Constants of the module\<close>

definition PIN_GREEN_LED :: nat where
  "PIN_GREEN_LED = 33"

definition PIN_RED_LED :: nat where
  "PIN_RED_LED = 35"

definition LED_ON_DURATION :: real where
  "LED_ON_DURATION = 5"

subsection \<open>Calls, exceptions, events and the world\<close>

text \<open>
  \<open>LOW\<close> and \<open>HIGH\<close> are \<^verbatim>\<open>GPIO.LOW\<close> and \<^verbatim>\<open>GPIO.HIGH\<close>. The LEDs are
  wired active-low: \<open>LOW\<close> is on (asserted), \<open>HIGH\<close> is off (deasserted).
\<close>

datatype level = LOW | HIGH

datatype numbering = BOARD

datatype direction = OUT

datatype gpio_call =
    Setwarnings bool
  | Setmode numbering
  | Setup nat direction
  | Output nat level
  | Cleanup

text \<open>
  The exceptions that occur. \<open>RuntimeError\<close> stands for whatever the GPIO library raises
  when a call fails (no access to the device, a channel that is not set up).
\<close>

datatype exn = KeyboardInterrupt | EOFError | ValueError | SystemExit int | RuntimeError

text \<open>
  The four prompts of the program, \<^verbatim>\<open>"Enter first number: "\<close>,
  \<^verbatim>\<open>"Enter second number: "\<close>, \<^verbatim>\<open>f"What is {num1} + {num2}? "\<close> and
  \<^verbatim>\<open>"Try another? (y/n): "\<close>, and the lines it prints, each with the values it
  interpolates. \<open>Banner\<close> is the five lines printed when \<^verbatim>\<open>run_quiz\<close> starts,
  \<open>Blank\<close> is \<^verbatim>\<open>print()\<close>.
\<close>

datatype prompt = EnterFirst | EnterSecond | WhatIs int int | TryAnother

datatype msg =
    Banner
  | InvalidInteger
  | StreamClosed
  | Correct int int int
  | Wrong int int int int
  | GreenOn
  | RedOn
  | Blank
  | Goodbye

text \<open>
  What one call of \<^verbatim>\<open>input\<close> meets: a line of text (its newline removed), the end
  of the stream, or Ctrl-C while the call waits.
\<close>

datatype inp = Line string | Eof | Interrupt

datatype event =
    Gpio gpio_call
  | GpioFailed gpio_call exn
  | Sleep real
  | SleepInterrupted real
  | Input prompt inp
  | Print msg

text \<open>
  \<open>stdin\<close> is what the coming calls of \<^verbatim>\<open>input\<close> meet, in order; when it is
  used up the stream is at its end. \<open>gpio_script\<close> gives for the coming calls of the GPIO
  library the exception each one raises (\<open>None\<close>: the call returns); a
  \<open>KeyboardInterrupt\<close> there is Ctrl-C arriving while the call runs. \<open>sleep_script\<close>
  says which of the coming sleeps Ctrl-C cuts short. A script that is used up means that
  every further call succeeds. \<open>trace\<close> is the history, oldest event first.
\<close>

record world =
  stdin :: "inp list"
  gpio_script :: "exn option list"
  sleep_script :: "bool list"
  trace :: "event list"

type_synonym 'a prog = "world \<Rightarrow> (exn + 'a) \<times> world"

subsection \<open>Sequencing, \<^verbatim>\<open>try ... except\<close> and \<^verbatim>\<open>try ... finally\<close>\<close>

definition ret :: "'a \<Rightarrow> 'a prog" where
  "ret x w = (Inr x, w)"

definition raise :: "exn \<Rightarrow> 'a prog" where
  "raise e w = (Inl e, w)"

definition bnd :: "'a prog \<Rightarrow> ('a \<Rightarrow> 'b prog) \<Rightarrow> 'b prog" where
  "bnd m f w = (case m w of (Inl e, w') \<Rightarrow> (Inl e, w') | (Inr x, w') \<Rightarrow> f x w')"

text \<open>
  \<^verbatim>\<open>try: m except E: h\<close>, where \<open>handles\<close> says which exceptions \<^verbatim>\<open>E\<close>
  matches; every other exception goes on.
\<close>

definition try_except :: "'a prog \<Rightarrow> (exn \<Rightarrow> bool) \<Rightarrow> 'a prog \<Rightarrow> 'a prog" where
  "try_except m handles h w =
     (case m w of
        (Inl e, w') \<Rightarrow> if handles e then h w' else (Inl e, w')
      | (Inr x, w') \<Rightarrow> (Inr x, w'))"

text \<open>
  \<^verbatim>\<open>try: m finally: c\<close>. The \<^verbatim>\<open>finally\<close> block runs however \<open>m\<close> ends. When it
  raises, its exception is the one that goes on, in place of the result or the exception
  of \<open>m\<close>.
\<close>

definition try_finally :: "'a prog \<Rightarrow> unit prog \<Rightarrow> 'a prog" where
  "try_finally m c w =
     (case m w of
        (r, w') \<Rightarrow> (case c w' of (Inl e, w'') \<Rightarrow> (Inl e, w'') | (Inr u, w'') \<Rightarrow> (r, w'')))"

subsection \<open>The environment's calls\<close>

text \<open>One call of the GPIO library: it returns or raises as the script says.\<close>

definition gpio :: "gpio_call \<Rightarrow> unit prog" where
  "gpio c w =
     (case gpio_script w of
        [] \<Rightarrow> (Inr (), w\<lparr>trace := trace w @ [Gpio c]\<rparr>)
      | None # fs \<Rightarrow> (Inr (), w\<lparr>gpio_script := fs, trace := trace w @ [Gpio c]\<rparr>)
      | Some e # fs \<Rightarrow> (Inl e, w\<lparr>gpio_script := fs, trace := trace w @ [GpioFailed c e]\<rparr>))"

text \<open>\<^verbatim>\<open>time.sleep\<close>: a negative length is a \<^verbatim>\<open>ValueError\<close>.\<close>

definition sleep :: "real \<Rightarrow> unit prog" where
  "sleep d w =
     (if d < 0 then (Inl ValueError, w)
      else case sleep_script w of
        [] \<Rightarrow> (Inr (), w\<lparr>trace := trace w @ [Sleep d]\<rparr>)
      | False # ss \<Rightarrow> (Inr (), w\<lparr>sleep_script := ss, trace := trace w @ [Sleep d]\<rparr>)
      | True # ss \<Rightarrow>
          (Inl KeyboardInterrupt, w\<lparr>sleep_script := ss, trace := trace w @ [SleepInterrupted d]\<rparr>))"

text \<open>\<^verbatim>\<open>input(prompt)\<close>.\<close>

definition input :: "prompt \<Rightarrow> string prog" where
  "input p w =
     (case stdin w of
        [] \<Rightarrow> (Inl EOFError, w\<lparr>trace := trace w @ [Input p Eof]\<rparr>)
      | Line s # r \<Rightarrow> (Inr s, w\<lparr>stdin := r, trace := trace w @ [Input p (Line s)]\<rparr>)
      | Eof # r \<Rightarrow> (Inl EOFError, w\<lparr>stdin := r, trace := trace w @ [Input p Eof]\<rparr>)
      | Interrupt # r \<Rightarrow>
          (Inl KeyboardInterrupt, w\<lparr>stdin := r, trace := trace w @ [Input p Interrupt]\<rparr>))"

definition print :: "msg \<Rightarrow> unit prog" where
  "print m w = (Inr (), w\<lparr>trace := trace w @ [Print m]\<rparr>)"

subsection \<open>Text: \<^verbatim>\<open>int\<close>, \<^verbatim>\<open>strip\<close>, \<^verbatim>\<open>lower\<close>\<close>

text \<open>
  Text is ASCII. \<^verbatim>\<open>str.strip()\<close> removes the whitespace characters at both ends:
  tab, line feed, vertical tab, form feed, carriage return, the four separators
  \<^verbatim>\<open>0x1c\<close> to \<^verbatim>\<open>0x1f\<close>, and the space.
\<close>

definition py_isspace :: "char \<Rightarrow> bool" where
  "py_isspace c =
     (let n = (of_char c :: nat) in (9 \<le> n \<and> n \<le> 13) \<or> (28 \<le> n \<and> n \<le> 31) \<or> n = 32)"

definition py_strip :: "string \<Rightarrow> string" where
  "py_strip s = rev (dropWhile py_isspace (rev (dropWhile py_isspace s)))"

definition py_lower_char :: "char \<Rightarrow> char" where
  "py_lower_char c =
     (let n = (of_char c :: nat) in if 65 \<le> n \<and> n \<le> 90 then char_of (n + 32) else c)"

definition py_lower :: "string \<Rightarrow> string" where
  "py_lower s = map py_lower_char s"

text \<open>
  \<^verbatim>\<open>int(s)\<close> in base ten: whitespace around, one optional sign, then decimal
  digits, where single underscores may stand between two digits. \<open>None\<close> is the
  \<^verbatim>\<open>ValueError\<close>. Digits outside ASCII, and the bound that newer interpreters put
  on the number of digits of a text, are left out.
\<close>

definition digit_val :: "char \<Rightarrow> nat option" where
  "digit_val c =
     (let n = (of_char c :: nat) in if 48 \<le> n \<and> n \<le> 57 then Some (n - 48) else None)"

fun digits_value :: "nat \<Rightarrow> string \<Rightarrow> nat option" where
  "digits_value acc [] = Some acc"
| "digits_value acc (c # cs) =
     (if c = CHR ''_'' then
        (case cs of
           [] \<Rightarrow> None
         | d # ds \<Rightarrow>
             (case digit_val d of
                None \<Rightarrow> None
              | Some v \<Rightarrow> digits_value (10 * acc + v) ds))
      else
        (case digit_val c of
           None \<Rightarrow> None
         | Some v \<Rightarrow> digits_value (10 * acc + v) cs))"

definition unsigned_value :: "string \<Rightarrow> int option" where
  "unsigned_value t =
     (case t of
        [] \<Rightarrow> None
      | d # ds \<Rightarrow>
          (case digit_val d of
             None \<Rightarrow> None
           | Some v \<Rightarrow> map_option int (digits_value v ds)))"

definition py_int :: "string \<Rightarrow> int option" where
  "py_int s =
     (case py_strip s of
        [] \<Rightarrow> None
      | c # cs \<Rightarrow>
          if c = CHR ''-'' then map_option uminus (unsigned_value cs)
          else if c = CHR ''+'' then unsigned_value cs
          else unsigned_value (c # cs))"

subsection \<open>The program\<close>

text \<open>
  \<^verbatim>\<open>gpio_context\<close>: the generator of the context manager runs up to its
  \<^verbatim>\<open>yield\<close> when the \<^verbatim>\<open>with\<close> statement is entered, the body of the
  \<^verbatim>\<open>with\<close> statement runs at the \<^verbatim>\<open>yield\<close>, and an exception of the body is
  raised again there. So the \<^verbatim>\<open>try\<close> of the generator encloses the six calls of the
  set-up and the body, and \<^verbatim>\<open>GPIO.cleanup()\<close> is its \<^verbatim>\<open>finally\<close>. The set-up
  is named on its own, so that the world at the \<^verbatim>\<open>yield\<close> can be spoken of.
\<close>

definition gpio_setup :: "unit prog" where
  "gpio_setup =
     bnd (gpio (Setwarnings False)) (\<lambda>_.
     bnd (gpio (Setmode BOARD)) (\<lambda>_.
     bnd (gpio (Setup PIN_GREEN_LED OUT)) (\<lambda>_.
     bnd (gpio (Setup PIN_RED_LED OUT)) (\<lambda>_.
     bnd (gpio (Output PIN_GREEN_LED HIGH)) (\<lambda>_.
     gpio (Output PIN_RED_LED HIGH))))))"

definition gpio_context :: "'a prog \<Rightarrow> 'a prog" where
  "gpio_context body = try_finally (bnd gpio_setup (\<lambda>_. body)) (gpio Cleanup)"

definition flash_led :: "nat \<Rightarrow> real \<Rightarrow> unit prog" where
  "flash_led pin duration =
     bnd (gpio (Output pin LOW)) (\<lambda>_.
     bnd (sleep duration) (\<lambda>_.
     gpio (Output pin HIGH)))"

text \<open>
  \<^verbatim>\<open>get_integer_input\<close>: the \<^verbatim>\<open>while True\<close> loop goes round once for each line
  that is not an integer. Every turn reads from \<open>stdin\<close>, which is finite, so the loop is
  a recursion on what is left of it.
\<close>

function get_integer_input :: "prompt \<Rightarrow> int prog" where
  "get_integer_input p w =
     (case input p w of
        (Inr s, w') \<Rightarrow>
          (case py_int s of
             Some n \<Rightarrow> (Inr n, w')
           | None \<Rightarrow> (case print InvalidInteger w' of (u, w'') \<Rightarrow> get_integer_input p w''))
      | (Inl e, w') \<Rightarrow>
          if e = EOFError then bnd (print StreamClosed) (\<lambda>_. raise (SystemExit 1)) w'
          else (Inl e, w'))"
  by pat_completeness auto
termination
  by (relation "measure (\<lambda>(p, w). length (stdin w))")
     (auto simp: input_def print_def split: list.splits inp.splits)

declare get_integer_input.simps [simp del]

text \<open>
  One turn of the \<^verbatim>\<open>while True\<close> loop of \<^verbatim>\<open>run_quiz\<close>. The result says
  whether the loop goes on: \<open>False\<close> is the \<^verbatim>\<open>break\<close>.
\<close>

definition quiz_round :: "bool prog" where
  "quiz_round =
     bnd (get_integer_input EnterFirst) (\<lambda>num1.
     bnd (get_integer_input EnterSecond) (\<lambda>num2.
     bnd (get_integer_input (WhatIs num1 num2)) (\<lambda>user_answer.
     let correct_answer = num1 + num2 in
     bnd (if user_answer = correct_answer then
            bnd (print (Correct num1 num2 correct_answer)) (\<lambda>_.
            bnd (print GreenOn) (\<lambda>_.
            flash_led PIN_GREEN_LED LED_ON_DURATION))
          else
            bnd (print (Wrong num1 num2 correct_answer user_answer)) (\<lambda>_.
            bnd (print RedOn) (\<lambda>_.
            flash_led PIN_RED_LED LED_ON_DURATION))) (\<lambda>_.
     bnd (print Blank) (\<lambda>_.
     bnd (input TryAnother) (\<lambda>again.
     if py_lower (py_strip again) \<noteq> ''y'' then ret False
     else bnd (print Blank) (\<lambda>_. ret True)))))))"

subsection \<open>What a trace shows\<close>

text \<open>The exception of a result, if it is one.\<close>

definition exc :: "exn + 'a \<Rightarrow> exn option" where
  "exc r = (case r of Inl e \<Rightarrow> Some e | Inr x \<Rightarrow> None)"

text \<open>The calls of the GPIO library that were made, whether they returned or raised.\<close>

fun gpio_calls :: "event list \<Rightarrow> gpio_call list" where
  "gpio_calls [] = []"
| "gpio_calls (Gpio c # es) = c # gpio_calls es"
| "gpio_calls (GpioFailed c e # es) = c # gpio_calls es"
| "gpio_calls (x # es) = gpio_calls es"

definition cleanups :: "event list \<Rightarrow> nat" where
  "cleanups es = length (filter (\<lambda>c. c = Cleanup) (gpio_calls es))"

text \<open>
  The level a pin is driven to after the events \<open>es\<close>: the level of the last
  \<^verbatim>\<open>GPIO.output\<close> on the pin that returned, \<open>None\<close> when there is none.
\<close>

fun pin_level :: "event list \<Rightarrow> nat \<Rightarrow> level option" where
  "pin_level [] p = None"
| "pin_level (e # es) p =
     (case pin_level es p of
        Some l \<Rightarrow> Some l
      | None \<Rightarrow> (case e of Gpio (Output q l) \<Rightarrow> if q = p then Some l else None | _ \<Rightarrow> None))"

text \<open>
  What the calls of \<^verbatim>\<open>input\<close> met, in order, and whether Ctrl-C arrived at a prompt
  or during a sleep.
\<close>

fun reads :: "event list \<Rightarrow> inp list" where
  "reads [] = []"
| "reads (Input p i # es) = i # reads es"
| "reads (e # es) = reads es"

fun is_interrupt :: "event \<Rightarrow> bool" where
  "is_interrupt (Input p Interrupt) = True"
| "is_interrupt (SleepInterrupted d) = True"
| "is_interrupt e = False"

definition interrupted :: "event list \<Rightarrow> bool" where
  "interrupted es = list_ex is_interrupt es"

text \<open>
  The levels written to pin \<open>q\<close>, in order: one for every \<^verbatim>\<open>GPIO.output\<close> on that
  pin, whether it returned or raised.
\<close>

definition writes_to :: "nat \<Rightarrow> event list \<Rightarrow> level list" where
  "writes_to q es =
     concat (map (\<lambda>c. case c of Output p l \<Rightarrow> if p = q then [l] else [] | _ \<Rightarrow> [])
       (gpio_calls es))"

text \<open>The six calls of the set-up of \<^verbatim>\<open>gpio_context\<close>, in order.\<close>

definition setup_calls :: "gpio_call list" where
  "setup_calls =
     [Setwarnings False, Setmode BOARD, Setup PIN_GREEN_LED OUT, Setup PIN_RED_LED OUT,
      Output PIN_GREEN_LED HIGH, Output PIN_RED_LED HIGH]"

text \<open>The event of a call of \<^verbatim>\<open>GPIO.cleanup\<close> when the script that is left is \<open>fs\<close>.\<close>

definition cleanup_event :: "exn option list \<Rightarrow> event" where
  "cleanup_event fs = (case fs of Some x # r \<Rightarrow> GpioFailed Cleanup x | _ \<Rightarrow> Gpio Cleanup)"


text \<open>
  A world in which no coming GPIO call raises and no coming sleep is cut short; what is
  typed, Ctrl-C at a prompt and the end of the stream are left open.
\<close>

definition calm :: "world \<Rightarrow> bool" where
  "calm w = (set (gpio_script w) \<subseteq> {None} \<and> True \<notin> set (sleep_script w))"

text \<open>Both LEDs are driven \<open>HIGH\<close>, which is off.\<close>

definition leds_off :: "event list \<Rightarrow> bool" where
  "leds_off es =
     (pin_level es PIN_GREEN_LED = Some HIGH \<and> pin_level es PIN_RED_LED = Some HIGH)"



subsection \<open>Rules for sequencing and for the input loop\<close>

text \<open>
  A property \<open>R w x w'\<close> relates the world before a call, the exception it ends with
  (\<open>None\<close> when it returns) and the world after it. A property that composes along a
  sequence holds of the sequence as soon as it holds of the parts.
\<close>

lemma exc_simps [simp]: "exc (Inl e) = Some e" "exc (Inr x) = None"
  by (simp_all add: exc_def)

lemma bnd_Inl: "m w = (Inl e, w') \<Longrightarrow> bnd m f w = (Inl e, w')"
  by (simp add: bnd_def)


lemma bnd_returns:
  "bnd m f w = (Inr y, w') \<Longrightarrow> \<exists>x w1. m w = (Inr x, w1) \<and> f x w1 = (Inr y, w')"
  by (auto simp: bnd_def split: prod.splits sum.splits)

lemma bnd_rule:
  assumes comp: "\<And>a b c x. R a None b \<Longrightarrow> R b x c \<Longrightarrow> R a x c"
    and m: "\<And>w. R w (exc (fst (m w))) (snd (m w))"
    and f: "\<And>x w. R w (exc (fst (f x w))) (snd (f x w))"
  shows "R w (exc (fst (bnd m f w))) (snd (bnd m f w))"
proof (cases "m w")
  case (Pair r w1)
  show ?thesis
  proof (cases r)
    case (Inl e)
    with Pair m [of w] show ?thesis by (simp add: bnd_def)
  next
    case (Inr x)
    with Pair m [of w] have "R w None w1" by simp
    moreover have "R w1 (exc (fst (f x w1))) (snd (f x w1))" by (rule f)
    ultimately have "R w (exc (fst (f x w1))) (snd (f x w1))" by (rule comp)
    with Pair Inr show ?thesis by (simp add: bnd_def)
  qed
qed

lemma input_stdin: "length (stdin (snd (input p w))) \<le> length (stdin w)"
  by (simp add: input_def split: list.splits inp.splits)

lemma input_returns_stdin:
  "input p w = (Inr s, w') \<Longrightarrow> length (stdin w') < length (stdin w)"
  by (auto simp: input_def split: list.splits inp.splits)

lemma print_stdin [simp]: "stdin (snd (print m w)) = stdin w"
  by (simp add: print_def)

lemma gpio_stdin [simp]: "stdin (snd (gpio c w)) = stdin w"
  by (simp add: gpio_def split: list.splits option.splits)

lemma sleep_stdin [simp]: "stdin (snd (sleep d w)) = stdin w"
  by (simp add: sleep_def split: list.splits bool.splits)

lemma get_integer_input_valid:
  "input p w = (Inr s, w1) \<Longrightarrow> py_int s = Some n \<Longrightarrow> get_integer_input p w = (Inr n, w1)"
  by (subst get_integer_input.simps) simp

lemma get_integer_input_invalid:
  "input p w = (Inr s, w1) \<Longrightarrow> py_int s = None \<Longrightarrow>
   get_integer_input p w = get_integer_input p (snd (print InvalidInteger w1))"
  by (subst get_integer_input.simps) (simp add: print_def)

lemma get_integer_input_eof:
  "input p w = (Inl EOFError, w1) \<Longrightarrow>
   get_integer_input p w = (Inl (SystemExit 1), snd (print StreamClosed w1))"
  by (subst get_integer_input.simps) (simp add: bnd_def print_def raise_def)

lemma get_integer_input_raises:
  "input p w = (Inl e, w1) \<Longrightarrow> e \<noteq> EOFError \<Longrightarrow> get_integer_input p w = (Inl e, w1)"
  by (subst get_integer_input.simps) simp

lemma get_integer_input_rule:
  assumes comp: "\<And>a b c x. R a None b \<Longrightarrow> R b x c \<Longrightarrow> R a x c"
    and inp: "\<And>w. R w (exc (fst (input p w))) (snd (input p w))"
    and pr: "\<And>m w. R w None (snd (print m w))"
    and eof: "\<And>a b m. R a (Some EOFError) b \<Longrightarrow> R a (Some (SystemExit 1)) (snd (print m b))"
  shows "R w (exc (fst (get_integer_input p w))) (snd (get_integer_input p w))"
proof (induction "length (stdin w)" arbitrary: w rule: less_induct)
  case less
  obtain r w1 where in1: "input p w = (r, w1)" by (cases "input p w")
  have R1: "R w (exc r) w1" using inp [of w] in1 by simp
  show ?case
  proof (cases r)
    case (Inl e)
    show ?thesis
    proof (cases "e = EOFError")
      case True
      have "R w (Some (SystemExit 1)) (snd (print StreamClosed w1))"
        using R1 Inl True by (auto intro: eof)
      then show ?thesis
        using in1 Inl True by (simp add: get_integer_input_eof)
    next
      case False
      then show ?thesis
        using in1 Inl R1 by (simp add: get_integer_input_raises)
    qed
  next
    case (Inr s)
    show ?thesis
    proof (cases "py_int s")
      case (Some n)
      then show ?thesis
        using in1 Inr R1 by (simp add: get_integer_input_valid)
    next
      case None
      let ?w2 = "snd (print InvalidInteger w1)"
      have "length (stdin ?w2) < length (stdin w)"
        using in1 Inr by (simp add: input_returns_stdin)
      then have "R ?w2 (exc (fst (get_integer_input p ?w2))) (snd (get_integer_input p ?w2))"
        by (rule less)
      moreover have "R w None ?w2"
        using R1 Inr pr [of w1 InvalidInteger] by (auto intro: comp)
      ultimately have "R w (exc (fst (get_integer_input p ?w2))) (snd (get_integer_input p ?w2))"
        by (rule comp [rotated])
      then show ?thesis
        using in1 Inr None by (simp add: get_integer_input_invalid)
    qed
  qed
qed

lemma get_integer_input_stdin:
  "length (stdin (snd (get_integer_input p w))) \<le> length (stdin w)"
  by (rule get_integer_input_rule [where R = "\<lambda>a x b. length (stdin b) \<le> length (stdin a)"])
     (auto simp: input_stdin)

lemma get_integer_input_returns_stdin:
  assumes "get_integer_input p w = (Inr n, w')"
  shows "length (stdin w') < length (stdin w)"
proof -
  obtain r w1 where in1: "input p w = (r, w1)" by (cases "input p w")
  show ?thesis
  proof (cases r)
    case (Inl e)
    with in1 assms show ?thesis
      by (cases "e = EOFError") (simp_all add: get_integer_input_eof get_integer_input_raises)
  next
    case (Inr s)
    with in1 have less: "length (stdin w1) < length (stdin w)"
      by (simp add: input_returns_stdin)
    show ?thesis
    proof (cases "py_int s")
      case (Some k)
      with in1 Inr assms less show ?thesis by (simp add: get_integer_input_valid)
    next
      case None
      with in1 Inr assms have "w' = snd (get_integer_input p (snd (print InvalidInteger w1)))"
        by (simp add: get_integer_input_invalid)
      with less get_integer_input_stdin [of p "snd (print InvalidInteger w1)"]
      show ?thesis by simp
    qed
  qed
qed

lemma bnd_rule2:
  assumes mix: "\<And>a b c x. S a None b \<Longrightarrow> R b x c \<Longrightarrow> S a x c"
    and m: "\<And>w. S w (exc (fst (m w))) (snd (m w))"
    and f: "\<And>x w. R w (exc (fst (f x w))) (snd (f x w))"
  shows "S w (exc (fst (bnd m f w))) (snd (bnd m f w))"
proof (cases "m w")
  case (Pair r w1)
  show ?thesis
  proof (cases r)
    case (Inl e)
    with Pair m [of w] show ?thesis by (simp add: bnd_def)
  next
    case (Inr x)
    with Pair m [of w] have "S w None w1" by simp
    moreover have "R w1 (exc (fst (f x w1))) (snd (f x w1))" by (rule f)
    ultimately have "S w (exc (fst (f x w1))) (snd (f x w1))" by (rule mix)
    with Pair Inr show ?thesis by (simp add: bnd_def)
  qed
qed

lemma flash_led_stdin [simp]: "stdin (snd (flash_led pin d w)) = stdin w"
  unfolding flash_led_def
  by (intro bnd_rule [where R = "\<lambda>a x b. stdin b = stdin a"]) simp_all

lemma quiz_round_rule2:
  assumes comp: "\<And>a b c x. R a None b \<Longrightarrow> R b x c \<Longrightarrow> R a x c"
    and mix: "\<And>a b c x. S a None b \<Longrightarrow> R b x c \<Longrightarrow> S a x c"
    and first: "\<And>w. S w (exc (fst (get_integer_input EnterFirst w)))
       (snd (get_integer_input EnterFirst w))"
    and refl: "\<And>w. R w None w"
    and inp: "\<And>p w. R w (exc (fst (input p w))) (snd (input p w))"
    and pr: "\<And>m w. R w None (snd (print m w))"
    and flash: "\<And>pin w. pin = PIN_GREEN_LED \<or> pin = PIN_RED_LED \<Longrightarrow>
       R w (exc (fst (flash_led pin LED_ON_DURATION w))) (snd (flash_led pin LED_ON_DURATION w))"
    and eof: "\<And>a b m. R a (Some EOFError) b \<Longrightarrow> R a (Some (SystemExit 1)) (snd (print m b))"
  shows "S w (exc (fst (quiz_round w))) (snd (quiz_round w))"
proof -
  have gii: "\<And>p w. R w (exc (fst (get_integer_input p w))) (snd (get_integer_input p w))"
    by (rule get_integer_input_rule [where R = R]) (erule (1) comp, rule inp, rule pr, erule eof)
  have prx: "\<And>m w. R w (exc (fst (print m w))) (snd (print m w))"
    using pr by (simp add: print_def)
  have retx: "\<And>x w. R w (exc (fst (ret x w))) (snd (ret x w))"
    using refl by (simp add: ret_def)
  show ?thesis
    unfolding quiz_round_def Let_def
    apply (rule bnd_rule2 [where R = R and S = S], erule (1) mix, rule first)
    apply (rule bnd_rule [where R = R], erule (1) comp, rule gii)+
    apply (rule bnd_rule [where R = R], erule (1) comp)
     apply (simp only: split: if_split, intro conjI impI)
      apply (rule bnd_rule [where R = R], erule (1) comp, rule prx)+
      apply (rule flash, simp)
     apply (rule bnd_rule [where R = R], erule (1) comp, rule prx)+
     apply (rule flash, simp)
    apply (rule bnd_rule [where R = R], erule (1) comp, rule prx)
    apply (rule bnd_rule [where R = R], erule (1) comp, rule inp)
    apply (simp only: split: if_split, intro conjI impI)
     apply (rule retx)
    apply (rule bnd_rule [where R = R], erule (1) comp, rule prx)
    apply (rule retx)
    done
qed

lemma quiz_round_rule:
  assumes comp: "\<And>a b c x. R a None b \<Longrightarrow> R b x c \<Longrightarrow> R a x c"
    and refl: "\<And>w. R w None w"
    and inp: "\<And>p w. R w (exc (fst (input p w))) (snd (input p w))"
    and pr: "\<And>m w. R w None (snd (print m w))"
    and flash: "\<And>pin w. pin = PIN_GREEN_LED \<or> pin = PIN_RED_LED \<Longrightarrow>
       R w (exc (fst (flash_led pin LED_ON_DURATION w))) (snd (flash_led pin LED_ON_DURATION w))"
    and eof: "\<And>a b m. R a (Some EOFError) b \<Longrightarrow> R a (Some (SystemExit 1)) (snd (print m b))"
  shows "R w (exc (fst (quiz_round w))) (snd (quiz_round w))"
  apply (rule quiz_round_rule2 [where R = R and S = R])
         apply (erule (1) comp)
        apply (erule (1) comp)
       apply (rule get_integer_input_rule [where R = R])
          apply (erule (1) comp)
         apply (rule inp)
        apply (rule pr)
       apply (erule eof)
      apply (rule refl)
     apply (rule inp)
    apply (rule pr)
   apply (erule flash)
  apply (erule eof)
  done

lemma quiz_round_returns_stdin:
  assumes "quiz_round w = (Inr go, w')"
  shows "length (stdin w') < length (stdin w)"
proof -
  have "exc (fst (quiz_round w)) = None \<longrightarrow>
        length (stdin (snd (quiz_round w))) < length (stdin w)"
  proof (rule quiz_round_rule2 [where
        R = "\<lambda>a x b. length (stdin b) \<le> length (stdin a)" and
        S = "\<lambda>a x b. x = None \<longrightarrow> length (stdin b) < length (stdin a)"])
    fix v
    show "exc (fst (get_integer_input EnterFirst v)) = None \<longrightarrow>
          length (stdin (snd (get_integer_input EnterFirst v))) < length (stdin v)"
      by (cases "get_integer_input EnterFirst v")
         (auto simp: exc_def split: sum.splits dest: get_integer_input_returns_stdin)
  qed (auto simp: input_stdin)
  with assms show ?thesis by simp
qed

subsection \<open>The quiz loop and the entry point\<close>

text \<open>
  The \<^verbatim>\<open>while True\<close> loop of \<^verbatim>\<open>run_quiz\<close>. A turn that goes on has read
  at least four lines, so the loop is a recursion on what is left of \<open>stdin\<close>.
\<close>

function quiz_loop :: "unit prog" where
  "quiz_loop w =
     (case quiz_round w of
        (Inl e, w') \<Rightarrow> (Inl e, w')
      | (Inr go, w') \<Rightarrow> if go then quiz_loop w' else (Inr (), w'))"
  by pat_completeness auto
termination
  by (relation "measure (\<lambda>w. length (stdin w))")
     (auto dest: quiz_round_returns_stdin [OF sym])

declare quiz_loop.simps [simp del]

text \<open>
  \<^verbatim>\<open>run_quiz\<close>: the banner, then the loop inside
  \<^verbatim>\<open>try: ... except KeyboardInterrupt:\<close> inside \<^verbatim>\<open>with gpio_context():\<close>.
\<close>

definition run_quiz :: "unit prog" where
  "run_quiz =
     bnd (print Banner) (\<lambda>_.
     gpio_context (try_except quiz_loop (\<lambda>e. e = KeyboardInterrupt) (print Goodbye)))"

definition main :: "int prog" where
  "main = bnd run_quiz (\<lambda>_. ret 0)"

text \<open>
  The status the process ends with, for \<^verbatim>\<open>sys.exit(main())\<close> as the last
  statement of the script: the value \<^verbatim>\<open>main\<close> returns, or the code of a
  \<^verbatim>\<open>SystemExit\<close>. An exception that nothing catches ends the interpreter with
  status 1 after the traceback; a \<^verbatim>\<open>KeyboardInterrupt\<close> that nothing catches ends
  it through the interrupt signal, which a shell reports as 130.
\<close>

fun exit_status :: "exn + int \<Rightarrow> int" where
  "exit_status (Inr code) = code"
| "exit_status (Inl (SystemExit code)) = code"
| "exit_status (Inl KeyboardInterrupt) = 130"
| "exit_status (Inl e) = 1"

definition process_exit :: "world \<Rightarrow> int" where
  "process_exit w = exit_status (fst (main w))"

section \<open>Facts about the program\<close>


lemma gpio_calls_append: "gpio_calls (es @ fs) = gpio_calls es @ gpio_calls fs"
  by (induction es rule: gpio_calls.induct) simp_all

lemma writes_to_append: "writes_to q (es @ fs) = writes_to q es @ writes_to q fs"
  by (simp add: writes_to_def gpio_calls_append)

lemma writes_to_single [simp]:
  "writes_to q [] = []"
  "writes_to q [Gpio (Output p l)] = (if p = q then [l] else [])"
  "writes_to q [GpioFailed (Output p l) x] = (if p = q then [l] else [])"
  "writes_to q [Sleep d] = []"
  "writes_to q [SleepInterrupted d] = []"
  by (simp_all add: writes_to_def)

lemma pin_level_append:
  "pin_level (es @ fs) p = (case pin_level fs p of Some l \<Rightarrow> Some l | None \<Rightarrow> pin_level es p)"
  by (induction es) (auto split: option.splits)

lemma pin_level_snoc:
  "pin_level (es @ [e]) p =
     (case e of Gpio (Output q l) \<Rightarrow> if q = p then Some l else pin_level es p | _ \<Rightarrow> pin_level es p)"
  by (simp add: pin_level_append split: event.splits gpio_call.splits option.splits)

lemma gpio_setup_fails:
  assumes "k < 6" and "gpio_script w = replicate k None @ Some e # fs"
  shows "gpio_setup w =
    (Inl e, w\<lparr>gpio_script := fs,
       trace := trace w @ map Gpio (take k setup_calls) @ [GpioFailed (setup_calls ! k) e]\<rparr>)"
proof -
  from assms(1) consider "k = 0" | "k = 1" | "k = 2" | "k = 3" | "k = 4" | "k = 5"
    by linarith
  then show ?thesis
    using assms(2)
    by cases
      (simp_all add: gpio_setup_def bnd_def gpio_def setup_calls_def numeral_eq_Suc)
qed

lemma gpio_cleanup:
  "gpio Cleanup w =
     (case gpio_script w of Some x # r \<Rightarrow> Inl x | _ \<Rightarrow> Inr (),
      w\<lparr>gpio_script := tl (gpio_script w), trace := trace w @ [cleanup_event (gpio_script w)]\<rparr>)"
  by (simp add: gpio_def cleanup_event_def split: list.splits option.splits)

lemma gpio_context_fails:
  assumes "k < 6" and "gpio_script w = replicate k None @ Some e # fs"
  shows "gpio_context body w =
    (Inl (case fs of Some x # r \<Rightarrow> x | _ \<Rightarrow> e),
     w\<lparr>gpio_script := tl fs,
       trace := trace w @ map Gpio (take k setup_calls) @
         [GpioFailed (setup_calls ! k) e, cleanup_event fs]\<rparr>)"
  by (simp add: gpio_context_def try_finally_def bnd_def gpio_setup_fails [OF assms]
      gpio_cleanup split: list.splits option.splits)

lemma gpio_calls_map_Gpio [simp]: "gpio_calls (map Gpio cs) = cs"
  by (induction cs) simp_all

lemma gpio_calls_cleanup_event [simp]: "gpio_calls [cleanup_event fs] = [Cleanup]"
  by (simp add: cleanup_event_def split: list.splits option.splits)

lemma flash_led_returns:
  assumes "0 \<le> d"
    and "set (take 2 (gpio_script w)) \<subseteq> {None}"
    and "take 1 (sleep_script w) \<noteq> [True]"
  shows "flash_led pin d w =
    (Inr (), w\<lparr>gpio_script := drop 2 (gpio_script w), sleep_script := drop 1 (sleep_script w),
       trace := trace w @ [Gpio (Output pin LOW), Sleep d, Gpio (Output pin HIGH)]\<rparr>)"
  using assms
  by (cases "gpio_script w"; cases "tl (gpio_script w)"; cases "sleep_script w")
     (auto simp: flash_led_def bnd_def gpio_def sleep_def split: option.splits)



lemma gpio_calls_snoc [simp]:
  "gpio_calls (es @ [Input p i]) = gpio_calls es"
  "gpio_calls (es @ [Print m]) = gpio_calls es"
  "gpio_calls (es @ [Sleep d]) = gpio_calls es"
  "gpio_calls (es @ [SleepInterrupted d]) = gpio_calls es"
  "gpio_calls (es @ [Gpio c]) = gpio_calls es @ [c]"
  "gpio_calls (es @ [GpioFailed c e]) = gpio_calls es @ [c]"
  by (simp_all add: gpio_calls_append)

lemma input_gpio_calls [simp]: "gpio_calls (trace (snd (input p w))) = gpio_calls (trace w)"
  by (simp add: input_def split: list.splits inp.splits)

lemma print_gpio_calls [simp]: "gpio_calls (trace (snd (print m w))) = gpio_calls (trace w)"
  by (simp add: print_def)



lemma quiz_loop_rule:
  assumes comp: "\<And>a b c x. R a None b \<Longrightarrow> R b x c \<Longrightarrow> R a x c"
    and round: "\<And>w. R w (exc (fst (quiz_round w))) (snd (quiz_round w))"
  shows "R w (exc (fst (quiz_loop w))) (snd (quiz_loop w))"
proof (induction "length (stdin w)" arbitrary: w rule: less_induct)
  case less
  obtain r w1 where q: "quiz_round w = (r, w1)" by (cases "quiz_round w")
  have R1: "R w (exc r) w1" using round [of w] q by simp
  show ?case
  proof (cases r)
    case (Inl e)
    with q R1 show ?thesis by (subst (1 2) quiz_loop.simps) simp
  next
    case (Inr go)
    show ?thesis
    proof (cases go)
      case True
      have "length (stdin w1) < length (stdin w)"
        using q Inr by (simp add: quiz_round_returns_stdin)
      then have "R w1 (exc (fst (quiz_loop w1))) (snd (quiz_loop w1))" by (rule less)
      with R1 Inr have "R w (exc (fst (quiz_loop w1))) (snd (quiz_loop w1))"
        by (auto intro: comp)
      with q Inr True show ?thesis by (subst (1 2) quiz_loop.simps) simp
    next
      case False
      with q Inr R1 show ?thesis by (subst (1 2) quiz_loop.simps) simp
    qed
  qed
qed

lemma try_except_rule:
  assumes m: "\<And>w. R w (exc (fst (m w))) (snd (m w))"
    and h: "\<And>a e b. handles e \<Longrightarrow> R a (Some e) b \<Longrightarrow> R a (exc (fst (h b))) (snd (h b))"
  shows "R w (exc (fst (try_except m handles h w))) (snd (try_except m handles h w))"
  using m [of w] h [of _ w "snd (m w)"]
  by (cases "m w") (auto simp: try_except_def split: sum.splits)

lemma gpio_context_unfold:
  "gpio_context body w =
     (case gpio_script (snd (bnd gpio_setup (\<lambda>_. body) w)) of
        Some x # r \<Rightarrow> Inl x
      | _ \<Rightarrow> fst (bnd gpio_setup (\<lambda>_. body) w),
      (snd (bnd gpio_setup (\<lambda>_. body) w))
        \<lparr>gpio_script := tl (gpio_script (snd (bnd gpio_setup (\<lambda>_. body) w))),
         trace := trace (snd (bnd gpio_setup (\<lambda>_. body) w)) @
           [cleanup_event (gpio_script (snd (bnd gpio_setup (\<lambda>_. body) w)))]\<rparr>)"
  by (cases "bnd gpio_setup (\<lambda>_. body) w")
     (simp add: gpio_context_def try_finally_def gpio_cleanup split: list.splits option.splits)

lemma cleanups_snoc [simp]:
  "cleanups (es @ [Input p i]) = cleanups es"
  "cleanups (es @ [Print m]) = cleanups es"
  "cleanups (es @ [Sleep d]) = cleanups es"
  "cleanups (es @ [SleepInterrupted d]) = cleanups es"
  "cleanups (es @ [Gpio c]) = (if c = Cleanup then Suc (cleanups es) else cleanups es)"
  "cleanups (es @ [GpioFailed c e]) = (if c = Cleanup then Suc (cleanups es) else cleanups es)"
  by (simp_all add: cleanups_def)

lemma cleanups_cleanup_event [simp]:
  "cleanups (es @ [cleanup_event fs]) = Suc (cleanups es)"
  by (simp add: cleanup_event_def split: list.splits option.splits)

lemma gpio_cleanups:
  "c \<noteq> Cleanup \<Longrightarrow> cleanups (trace (snd (gpio c w))) = cleanups (trace w)"
  by (simp add: gpio_def split: list.splits option.splits)

lemma sleep_cleanups [simp]: "cleanups (trace (snd (sleep d w))) = cleanups (trace w)"
  by (simp add: sleep_def split: list.splits bool.splits)

lemma input_cleanups [simp]: "cleanups (trace (snd (input p w))) = cleanups (trace w)"
  by (simp add: input_def split: list.splits inp.splits)

lemma print_cleanups [simp]: "cleanups (trace (snd (print m w))) = cleanups (trace w)"
  by (simp add: print_def)

lemma flash_led_cleanups [simp]:
  "cleanups (trace (snd (flash_led pin d w))) = cleanups (trace w)"
  unfolding flash_led_def
  by (intro bnd_rule [where R = "\<lambda>a x b. cleanups (trace b) = cleanups (trace a)"])
     (simp_all add: gpio_cleanups)

lemma quiz_loop_cleanups [simp]:
  "cleanups (trace (snd (quiz_loop w))) = cleanups (trace w)"
proof (rule quiz_loop_rule [where R = "\<lambda>a x b. cleanups (trace b) = cleanups (trace a)"])
  fix v
  show "cleanups (trace (snd (quiz_round v))) = cleanups (trace v)"
    by (rule quiz_round_rule [where R = "\<lambda>a x b. cleanups (trace b) = cleanups (trace a)"])
      simp_all
qed simp

lemma gpio_setup_cleanups [simp]:
  "cleanups (trace (snd (gpio_setup w))) = cleanups (trace w)"
  unfolding gpio_setup_def
  by (intro bnd_rule [where R = "\<lambda>a x b. cleanups (trace b) = cleanups (trace a)"])
     (simp_all add: gpio_cleanups)

lemma quiz_body_cleanups:
  "cleanups (trace (snd (bnd gpio_setup
      (\<lambda>_. try_except quiz_loop (\<lambda>e. e = KeyboardInterrupt) (print Goodbye)) w))) =
   cleanups (trace w)"
  apply (rule bnd_rule [where R = "\<lambda>a x b. cleanups (trace b) = cleanups (trace a)"])
    apply simp
   apply simp
  apply (rule try_except_rule [where R = "\<lambda>a x b. cleanups (trace b) = cleanups (trace a)"])
   apply simp
  apply simp
  done

lemma set_tl_None: "set xs \<subseteq> {None} \<Longrightarrow> set (tl xs) \<subseteq> {None}"
  by (cases xs) auto

lemma gpio_calm:
  "set (gpio_script v) \<subseteq> {None} \<Longrightarrow>
   gpio c v = (Inr (), v\<lparr>gpio_script := tl (gpio_script v), trace := trace v @ [Gpio c]\<rparr>)"
  by (cases "gpio_script v") (auto simp: gpio_def split: option.splits)

lemma gpio_returns:
  "gpio c v = (Inr (), v') \<Longrightarrow> trace v' = trace v @ [Gpio c]"
  by (auto simp: gpio_def split: list.splits option.splits)

lemma gpio_setup_returns:
  assumes "gpio_setup v = (Inr (), v')"
  shows "trace v' = trace v @ map Gpio setup_calls"
  using assms unfolding gpio_setup_def setup_calls_def
  by (auto dest!: bnd_returns gpio_returns)

lemma leds_off_setup: "leds_off (es @ map Gpio setup_calls)"
  by (simp add: leds_off_def setup_calls_def pin_level_append PIN_GREEN_LED_def PIN_RED_LED_def)

lemma gpio_setup_calm:
  assumes "calm v"
  shows "fst (gpio_setup v) = Inr () \<and> calm (snd (gpio_setup v))"
  using assms by (simp add: gpio_setup_def bnd_def gpio_calm calm_def set_tl_None)

lemma leds_off_snoc [simp]:
  "leds_off (es @ [Input p i]) = leds_off es"
  "leds_off (es @ [Print m]) = leds_off es"
  by (simp_all add: leds_off_def pin_level_snoc)

lemma flash_led_calm:
  assumes "calm a" and "pin = PIN_GREEN_LED \<or> pin = PIN_RED_LED"
  shows "calm (snd (flash_led pin LED_ON_DURATION a)) \<and>
     (leds_off (trace a) \<longrightarrow> leds_off (trace (snd (flash_led pin LED_ON_DURATION a))))"
proof -
  have h1: "0 \<le> LED_ON_DURATION" by (simp add: LED_ON_DURATION_def)
  have h2: "set (take 2 (gpio_script a)) \<subseteq> {None}"
    using assms(1) by (auto simp: calm_def dest: in_set_takeD)
  have h3: "take 1 (sleep_script a) \<noteq> [True]"
    using assms(1) by (cases "sleep_script a") (auto simp: calm_def)
  note h = h1 h2 h3
  have "calm (a\<lparr>gpio_script := drop 2 (gpio_script a), sleep_script := drop 1 (sleep_script a),
      trace := t\<rparr>)" for t
    using assms(1) by (auto simp: calm_def dest: in_set_dropD)
  then show ?thesis
    using assms(2)
    by (auto simp: flash_led_returns [OF h] leds_off_def pin_level_append)
qed

lemma calm_quiz_loop:
  "calm w \<longrightarrow> calm (snd (quiz_loop w)) \<and>
     (leds_off (trace w) \<longrightarrow> leds_off (trace (snd (quiz_loop w))))"
proof -
  let ?R = "\<lambda>a (x :: exn option) b.
      calm a \<longrightarrow> calm b \<and> (leds_off (trace a) \<longrightarrow> leds_off (trace b))"
  have round: "?R v (exc (fst (quiz_round v))) (snd (quiz_round v))" for v
  proof (rule quiz_round_rule [where R = ?R])
    fix p v
    show "?R v (exc (fst (input p v))) (snd (input p v))"
      by (simp add: input_def calm_def split: list.splits inp.splits)
  next
    fix pin v
    assume "pin = PIN_GREEN_LED \<or> pin = PIN_RED_LED"
    then show "?R v (exc (fst (flash_led pin LED_ON_DURATION v)))
        (snd (flash_led pin LED_ON_DURATION v))"
      using flash_led_calm [of v pin] by simp
  qed (simp_all add: print_def calm_def)
  show ?thesis
    by (rule quiz_loop_rule [where R = ?R]) (simp, rule round)
qed

lemma reads_append [simp]: "reads (es @ fs) = reads es @ reads fs"
  by (induction es rule: reads.induct) simp_all

lemma interrupted_simps [simp]:
  "interrupted [] = False"
  "interrupted (e # es) = (is_interrupt e \<or> interrupted es)"
  "interrupted (es @ fs) = (interrupted es \<or> interrupted fs)"
  by (auto simp: interrupted_def list_ex_iff)

lemma reads_map_Gpio [simp]: "reads (map Gpio cs) = []"
  by (induction cs) simp_all

lemma interrupted_map_Gpio [simp]: "interrupted (map Gpio cs) = False"
  by (induction cs) simp_all




section \<open>The claims\<close>

subsection \<open>The pulse\<close>



text \<open>
  Claim C9. A pulse on one pin makes no write to any other pin, and leaves the level of
  every other pin as it was, however the pulse ends. So a pulse of the green LED leaves the
  red LED alone, and the other way round.
\<close>

theorem flash_led_frame:
  assumes "q \<noteq> pin"
  shows "writes_to q (trace (snd (flash_led pin d w))) = writes_to q (trace w) \<and>
         pin_level (trace (snd (flash_led pin d w))) q = pin_level (trace w) q"
proof -
  let ?R = "\<lambda>a (x :: exn option) b.
      writes_to q (trace b) = writes_to q (trace a) \<and>
      pin_level (trace b) q = pin_level (trace a) q"
  have g: "?R v (exc (fst (gpio (Output pin l) v))) (snd (gpio (Output pin l) v))" for v l
    using assms
    by (simp add: gpio_def pin_level_snoc writes_to_append
        split: list.splits option.splits)
  have s: "?R v (exc (fst (sleep d v))) (snd (sleep d v))" for v
    by (simp add: sleep_def pin_level_snoc writes_to_append
        split: list.splits bool.splits)
  have "?R w (exc (fst (flash_led pin d w))) (snd (flash_led pin d w))"
    unfolding flash_led_def
    apply (rule bnd_rule [where R = ?R], simp, rule g)
    apply (rule bnd_rule [where R = ?R], simp, rule s)
    apply (rule g)
    done
  then show ?thesis by simp
qed

theorem flash_led_frame_witness:
  "PIN_RED_LED \<noteq> PIN_GREEN_LED \<and>
   writes_to PIN_RED_LED (trace (snd (flash_led PIN_GREEN_LED 5
     \<lparr>stdin = [], gpio_script = [], sleep_script = [],
        trace = [Gpio (Output 33 HIGH), Gpio (Output 35 HIGH)]\<rparr>))) = [HIGH] \<and>
   pin_level (trace (snd (flash_led PIN_GREEN_LED 5
     \<lparr>stdin = [], gpio_script = [], sleep_script = [],
        trace = [Gpio (Output 33 HIGH), Gpio (Output 35 HIGH)]\<rparr>))) PIN_RED_LED = Some HIGH"
proof -
  have h: "PIN_RED_LED \<noteq> PIN_GREEN_LED"
    by (simp add: PIN_RED_LED_def PIN_GREEN_LED_def)
  show ?thesis
    using h flash_led_frame [where d = 5 and
        w = "\<lparr>stdin = [], gpio_script = [], sleep_script = [],
           trace = [Gpio (Output 33 HIGH), Gpio (Output 35 HIGH)]\<rparr>", OF h]
    by (simp add: PIN_RED_LED_def writes_to_def)
qed

subsection \<open>Reading an integer\<close>



subsection \<open>A set-up that fails\<close>

text \<open>
  Claim C10. When one of the six calls of the set-up raises, which leaves the later ones
  undone, \<^verbatim>\<open>GPIO.cleanup()\<close> is still called, as the next and last call: the body of
  the \<^verbatim>\<open>with\<close> statement does not run, and nothing else happens. The \<^verbatim>\<open>try\<close> of
  \<^verbatim>\<open>gpio_context\<close> encloses the set-up.
\<close>

theorem gpio_context_setup_fails:
  assumes "k < 6" and "gpio_script w = replicate k None @ Some e # fs"
  shows "trace (snd (gpio_context body w)) =
           trace w @ map Gpio (take k setup_calls) @
             [GpioFailed (setup_calls ! k) e, cleanup_event fs] \<and>
         gpio_calls (trace (snd (gpio_context body w))) =
           gpio_calls (trace w) @ take (Suc k) setup_calls @ [Cleanup]"
proof -
  have "k < length setup_calls" using assms(1) by (simp add: setup_calls_def)
  then have "take (Suc k) setup_calls = take k setup_calls @ [setup_calls ! k]"
    by (rule take_Suc_conv_app_nth)
  then show ?thesis
    using gpio_calls_append [of "[GpioFailed (setup_calls ! k) e]" "[cleanup_event fs]"]
    by (simp add: gpio_context_fails [OF assms] gpio_calls_append)
qed

theorem gpio_context_setup_fails_witness:
  "(2 :: nat) < 6 \<and>
   trace (snd (gpio_context (ret ())
     \<lparr>stdin = [], gpio_script = [None, None, Some RuntimeError], sleep_script = [],
        trace = []\<rparr>)) =
     [Gpio (Setwarnings False), Gpio (Setmode BOARD), GpioFailed (Setup 33 OUT) RuntimeError,
      Gpio Cleanup] \<and>
   gpio_calls (trace (snd (gpio_context (ret ())
     \<lparr>stdin = [], gpio_script = [None, None, Some RuntimeError], sleep_script = [],
        trace = []\<rparr>))) =
     [Setwarnings False, Setmode BOARD, Setup 33 OUT, Cleanup]"
  using gpio_context_setup_fails [where k = 2 and e = RuntimeError and fs = "[]" and
      body = "ret ()" and
      w = "\<lparr>stdin = [], gpio_script = [None, None, Some RuntimeError], sleep_script = [],
        trace = []\<rparr>"]
  by (simp add: setup_calls_def cleanup_event_def PIN_GREEN_LED_def numeral_eq_Suc)



subsection \<open>One round\<close>





subsection \<open>Release\<close>

text \<open>
  Claim C3, as the code has it. In every run of \<^verbatim>\<open>run_quiz\<close>, whatever is typed,
  whichever calls raise and wherever Ctrl-C arrives, \<^verbatim>\<open>GPIO.cleanup()\<close> is called
  exactly once, and it is the last thing that happens. When that call raises, its
  exception is the one \<^verbatim>\<open>run_quiz\<close> ends with: nothing catches it, and it takes the
  place of the result or exception the run had up to there.
\<close>

theorem run_quiz_cleanup_once:
  "cleanups (trace (snd (run_quiz w))) = Suc (cleanups (trace w)) \<and>
   gpio_calls [last (trace (snd (run_quiz w)))] = [Cleanup] \<and>
   (\<forall>e. last (trace (snd (run_quiz w))) = GpioFailed Cleanup e \<longrightarrow> fst (run_quiz w) = Inl e)"
proof -
  let ?w1 = "w\<lparr>trace := trace w @ [Print Banner]\<rparr>"
  let ?body = "try_except quiz_loop (\<lambda>e. e = KeyboardInterrupt) (print Goodbye)"
  let ?w2 = "snd (bnd gpio_setup (\<lambda>_. ?body) ?w1)"
  have r: "run_quiz w = gpio_context ?body ?w1"
    by (simp add: run_quiz_def bnd_def print_def)
  have c: "cleanups (trace ?w2) = cleanups (trace w)"
    by (simp add: quiz_body_cleanups)
  have t: "trace (snd (run_quiz w)) = trace ?w2 @ [cleanup_event (gpio_script ?w2)]"
    by (simp add: r gpio_context_unfold [where body = ?body])
  have f: "fst (run_quiz w) = Inl e" if "cleanup_event (gpio_script ?w2) = GpioFailed Cleanup e" for e
    using that
    by (simp add: r gpio_context_unfold [where body = ?body] cleanup_event_def
        split: list.splits option.splits)
  show ?thesis
    using c f by (simp add: t)
qed

theorem run_quiz_cleanup_once_witness:
  "last (trace (snd (run_quiz
     \<lparr>stdin = [Line ''3'', Line ''4'', Line ''7'', Line ''n''],
        gpio_script = [None, None, None, None, None, None, None, None, Some RuntimeError],
        sleep_script = [], trace = []\<rparr>))) = GpioFailed Cleanup RuntimeError \<and>
   fst (run_quiz
     \<lparr>stdin = [Line ''3'', Line ''4'', Line ''7'', Line ''n''],
        gpio_script = [None, None, None, None, None, None, None, None, Some RuntimeError],
        sleep_script = [], trace = []\<rparr>) = Inl RuntimeError \<and>
   cleanups (trace (snd (run_quiz
     \<lparr>stdin = [Line ''3'', Line ''4'', Line ''7'', Line ''n''],
        gpio_script = [None, None, None, None, None, None, None, None, Some RuntimeError],
        sleep_script = [], trace = []\<rparr>))) = 1"
proof -
  let ?w = "\<lparr>stdin = [Line ''3'', Line ''4'', Line ''7'', Line ''n''],
        gpio_script = [None, None, None, None, None, None, None, None, Some RuntimeError],
        sleep_script = [], trace = []\<rparr>"
  have l: "last (trace (snd (run_quiz ?w))) = GpioFailed Cleanup RuntimeError"
    by code_simp
  show ?thesis
    using l run_quiz_cleanup_once [of ?w]
    by (simp add: cleanups_def)
qed

text \<open>
  The claim as it is written does not hold: in the run below the user answers and
  declines, \<^verbatim>\<open>GPIO.cleanup()\<close> raises, and the process ends with that exception and
  status 1, where the same run without the failure returns and ends with status 0.
\<close>

theorem cleanup_failure_propagates:
  "fst (run_quiz
     \<lparr>stdin = [Line ''3'', Line ''4'', Line ''7'', Line ''n''],
        gpio_script = [None, None, None, None, None, None, None, None, Some RuntimeError],
        sleep_script = [], trace = []\<rparr>) = Inl RuntimeError \<and>
   process_exit
     \<lparr>stdin = [Line ''3'', Line ''4'', Line ''7'', Line ''n''],
        gpio_script = [None, None, None, None, None, None, None, None, Some RuntimeError],
        sleep_script = [], trace = []\<rparr> = 1 \<and>
   fst (run_quiz
     \<lparr>stdin = [Line ''3'', Line ''4'', Line ''7'', Line ''n''],
        gpio_script = [None, None, None, None, None, None, None, None, None],
        sleep_script = [], trace = []\<rparr>) = Inr () \<and>
   process_exit
     \<lparr>stdin = [Line ''3'', Line ''4'', Line ''7'', Line ''n''],
        gpio_script = [None, None, None, None, None, None, None, None, None],
        sleep_script = [], trace = []\<rparr> = 0"
  by code_simp

subsection \<open>The LEDs at the ends of the scope\<close>

text \<open>
  Claim C2, as the code has it. Whenever the set-up of \<^verbatim>\<open>gpio_context\<close> returns, both
  LEDs are driven \<open>HIGH\<close> (off). In a run of \<^verbatim>\<open>run_quiz\<close> in which no GPIO call raises
  and no sleep is cut short, both LEDs are \<open>HIGH\<close> when \<^verbatim>\<open>GPIO.cleanup()\<close> is called,
  which is the last thing that happens; that holds whatever is typed, so for the normal
  end of the loop, for Ctrl-C at any prompt and for the end of the stream at any prompt.
\<close>

theorem leds_off_at_scope_ends:
  assumes "calm w"
  shows "(fst (gpio_setup v) = Inr () \<longrightarrow> leds_off (trace (snd (gpio_setup v)))) \<and>
         last (trace (snd (run_quiz w))) = Gpio Cleanup \<and>
         leds_off (butlast (trace (snd (run_quiz w))))"
proof -
  have first: "leds_off (trace (snd (gpio_setup u)))" if "fst (gpio_setup u) = Inr ()" for u
  proof -
    from that have "gpio_setup u = (Inr (), snd (gpio_setup u))"
      by (cases "gpio_setup u") simp
    then show ?thesis by (simp add: gpio_setup_returns leds_off_setup)
  qed
  let ?w1 = "w\<lparr>trace := trace w @ [Print Banner]\<rparr>"
  let ?body = "try_except quiz_loop (\<lambda>e. e = KeyboardInterrupt) (print Goodbye)"
  let ?w2 = "snd (gpio_setup ?w1)"
  let ?w3 = "snd (?body ?w2)"
  have c1: "calm ?w1" using assms by (simp add: calm_def)
  from gpio_setup_calm [OF c1] have s: "fst (gpio_setup ?w1) = Inr ()" and c2: "calm ?w2"
    by simp_all
  from s have l2: "leds_off (trace ?w2)" by (rule first)
  from c2 l2 calm_quiz_loop [of ?w2]
  have "calm (snd (quiz_loop ?w2)) \<and> leds_off (trace (snd (quiz_loop ?w2)))" by simp
  then have c3: "calm ?w3 \<and> leds_off (trace ?w3)"
    by (cases "quiz_loop ?w2") (auto simp: try_except_def print_def calm_def split: sum.splits)
  have b: "bnd gpio_setup (\<lambda>_. ?body) ?w1 = ?body ?w2"
    using s by (cases "gpio_setup ?w1") (simp add: bnd_def)
  have r: "run_quiz w = gpio_context ?body ?w1"
    by (simp add: run_quiz_def bnd_def print_def)
  have e: "cleanup_event (gpio_script ?w3) = Gpio Cleanup"
    using c3 by (auto simp: cleanup_event_def calm_def split: list.splits option.splits)
  have "trace (snd (run_quiz w)) = trace ?w3 @ [Gpio Cleanup]"
    by (simp add: r gpio_context_unfold [where body = ?body] b e)
  with c3 first show ?thesis by simp
qed

theorem leds_off_at_scope_ends_witness:
  "calm \<lparr>stdin = [Line ''3'', Line ''4'', Line ''8'', Line ''y'', Line ''1'', Interrupt],
      gpio_script = [], sleep_script = [], trace = []\<rparr> \<and>
   fst (gpio_setup \<lparr>stdin = [], gpio_script = [], sleep_script = [], trace = []\<rparr>) = Inr () \<and>
   leds_off (trace (snd (gpio_setup
     \<lparr>stdin = [], gpio_script = [], sleep_script = [], trace = []\<rparr>))) \<and>
   last (trace (snd (run_quiz
     \<lparr>stdin = [Line ''3'', Line ''4'', Line ''8'', Line ''y'', Line ''1'', Interrupt],
        gpio_script = [], sleep_script = [], trace = []\<rparr>))) = Gpio Cleanup \<and>
   leds_off (butlast (trace (snd (run_quiz
     \<lparr>stdin = [Line ''3'', Line ''4'', Line ''8'', Line ''y'', Line ''1'', Interrupt],
        gpio_script = [], sleep_script = [], trace = []\<rparr>))))"
proof -
  have c: "calm \<lparr>stdin = [Line ''3'', Line ''4'', Line ''8'', Line ''y'', Line ''1'', Interrupt],
      gpio_script = [], sleep_script = [], trace = []\<rparr>"
    by (simp add: calm_def)
  have s: "fst (gpio_setup \<lparr>stdin = [], gpio_script = [], sleep_script = [], trace = []\<rparr>) =
      Inr ()"
    by (simp add: gpio_setup_def bnd_def gpio_def)
  show ?thesis
    using c s leds_off_at_scope_ends [OF c,
        where v = "\<lparr>stdin = [], gpio_script = [], sleep_script = [], trace = []\<rparr>"]
    by simp
qed

text \<open>
  The claim as it is written does not hold: when Ctrl-C arrives during the sleep of a
  pulse, the pin of the pulse has been written \<open>LOW\<close> and is never written \<open>HIGH\<close>
  again, so the green LED is asserted when \<^verbatim>\<open>GPIO.cleanup()\<close> is called.
\<close>

theorem led_asserted_at_cleanup:
  "last (trace (snd (run_quiz
     \<lparr>stdin = [Line ''3'', Line ''4'', Line ''7''], gpio_script = [],
        sleep_script = [True], trace = []\<rparr>))) = Gpio Cleanup \<and>
   pin_level (butlast (trace (snd (run_quiz
     \<lparr>stdin = [Line ''3'', Line ''4'', Line ''7''], gpio_script = [],
        sleep_script = [True], trace = []\<rparr>)))) PIN_GREEN_LED = Some LOW \<and>
   \<not> leds_off (butlast (trace (snd (run_quiz
     \<lparr>stdin = [Line ''3'', Line ''4'', Line ''7''], gpio_script = [],
        sleep_script = [True], trace = []\<rparr>))))"
  by code_simp

subsection \<open>The exit status\<close>




end
